theory Spec2Isabelle
  imports Main "HOL-Library.Word"
begin

section \<open>Package web: the retrying HTTP client of \<open>web/client.go\<close>\<close>

text \<open>
  The development embeds \<open>ShouldRetry\<close>, \<open>IsTimeoutErr\<close>, \<open>Backoff.Next\<close>,
  \<open>RequestWithClose\<close> and \<open>client.Do\<close>. Go's \<open>int\<close> is taken at its width on the
  64-bit platforms: a 64-bit two's complement word whose \<open>+\<close>, \<open>-\<close> and \<open>*\<close> wrap around
  and whose comparisons are the signed ones (\<open>\<le>s\<close>, \<open><s\<close>); \<open>sint\<close> reads the value.
  Everything outside the package (the random source of \<open>math/rand\<close>, \<open>time.Sleep\<close>, the
  \<open>http.Client\<close>, the request's \<open>GetBody\<close> closure) acts on an environment state of an
  arbitrary type \<open>'w\<close> that is threaded through the calls in program order.
\<close>

subsection \<open>Values\<close>

type_synonym go_int = "64 word"

type_synonym bytes = "8 word list"

text \<open>
  An \<open>error\<close> value: either one that implements \<open>net.Error\<close>, carrying what its methods
  \<open>Timeout()\<close> and \<open>Temporary()\<close> answer, or any other error. The nil error is \<open>None\<close>.
\<close>

datatype go_error =
    PlainError string
  | NetError string bool bool

text \<open>The two ways the modelled code can panic.\<close>

datatype panic = IntnPanic | NilDeref

subsection \<open>The classifiers\<close>

definition StatusRequestTimeout :: go_int where
  "StatusRequestTimeout = 408"

definition ShouldRetry :: "go_int \<Rightarrow> bool" where
  "ShouldRetry statusCode =
     (statusCode = StatusRequestTimeout \<or> (500 \<le>s statusCode \<and> statusCode \<le>s 599))"

definition IsTimeoutErr :: "go_error option \<Rightarrow> bool" where
  "IsTimeoutErr e =
     (case e of
        Some (NetError msg timeout temporary) \<Rightarrow> timeout
      | _ \<Rightarrow> False)"

subsection \<open>Backoff\<close>

record Backoff =
  BaseSleep :: go_int
  MaxSleep :: go_int

text \<open>
  \<open>rand.Intn(n)\<close> panics when \<open>n <= 0\<close> and otherwise asks the random source, which
  answers with a number and moves on to its next state.
\<close>

type_synonym 'w rand_source = "go_int \<Rightarrow> 'w \<Rightarrow> go_int \<times> 'w"

definition Intn :: "'w rand_source \<Rightarrow> go_int \<Rightarrow> 'w \<Rightarrow> panic + go_int \<times> 'w" where
  "Intn src n w = (if n \<le>s 0 then Inl IntnPanic else Inr (src n w))"

definition Next :: "Backoff \<Rightarrow> 'w rand_source \<Rightarrow> go_int \<Rightarrow> 'w \<Rightarrow> panic + go_int \<times> 'w" where
  "Next b src previous w =
     (let diff = previous * 3 - BaseSleep b;
          diff = (if diff \<le>s 0 then 1 else diff)
      in case Intn src diff w of
           Inl p \<Rightarrow> Inl p
         | Inr (r, w') \<Rightarrow>
             (let sleep = r + BaseSleep b
              in if MaxSleep b <s sleep then Inr (MaxSleep b, w') else Inr (sleep, w')))"

subsection \<open>Requests, responses and \<open>RequestWithClose\<close>\<close>

text \<open>
  Of an \<open>http.Request\<close> the code touches the fields \<open>Body\<close> and \<open>GetBody\<close>; a body is a
  value of an arbitrary type \<open>'b\<close>. Of an \<open>http.Response\<close> it reads \<open>StatusCode\<close> and uses
  the body stream twice: \<open>ReadAll\<close> is what \<open>ioutil.ReadAll(resp.Body)\<close> does and returns,
  \<open>Close\<close> what \<open>resp.Body.Close()\<close> does. The request pointer is taken to be non-nil.
\<close>

record ('b, 'w) Request =
  Body :: "'b option"
  GetBody :: "('w \<Rightarrow> ('b option \<times> go_error option) \<times> 'w) option"

record 'w Response =
  StatusCode :: go_int
  ReadAll :: "'w \<Rightarrow> (bytes \<times> go_error option) \<times> 'w"
  Close :: "'w \<Rightarrow> 'w"

type_synonym ('b, 'w) http_Client =
  "('b, 'w) Request \<Rightarrow> 'w \<Rightarrow> ('w Response option \<times> go_error option) \<times> 'w"

text \<open>
  The results \<open>status\<close>, \<open>body\<close>, \<open>err\<close> are named results, zero until assigned. The
  deferred \<open>Close\<close> runs when the function returns, if a response came back. A nil
  response together with a nil error makes \<open>resp.StatusCode\<close> a nil dereference.
\<close>

definition RequestWithClose ::
  "('b, 'w) http_Client \<Rightarrow> ('b, 'w) Request \<Rightarrow> 'w
    \<Rightarrow> panic + (go_int \<times> bytes \<times> go_error option) \<times> 'w" where
  "RequestWithClose client req w =
     (case client req w of
        ((resp, err), w1) \<Rightarrow>
          (let deferred = (case resp of None \<Rightarrow> (\<lambda>w. w) | Some r \<Rightarrow> Close r)
           in if err \<noteq> None then Inr ((0, [], err), deferred w1)
              else (case resp of
                      None \<Rightarrow> Inl NilDeref
                    | Some r \<Rightarrow>
                        (case ReadAll r w1 of
                           ((body, err'), w2) \<Rightarrow>
                             Inr ((StatusCode r, body, err'), deferred w2)))))"

subsection \<open>The client and \<open>Do\<close>\<close>

record ('b, 'w) client =
  timeoutOnly :: bool
  cl :: "('b, 'w) http_Client"
  bk :: Backoff

record 'w env =
  rand_Intn :: "'w rand_source"
  time_Sleep :: "go_int \<Rightarrow> 'w \<Rightarrow> 'w"

text \<open>What one call of \<open>Do\<close> does to the outside, in order.\<close>

datatype 'b event =
    Slept go_int
  | GotBody "'b option" "go_error option"
  | Sent "'b option" go_int bytes "go_error option"

text \<open>
  The variables of one call of \<open>Do\<close>: the named results \<open>tries\<close>, \<open>status\<close>, \<open>body\<close>,
  \<open>err\<close>, the local \<open>wait\<close>, the request behind the pointer \<open>req\<close>, the environment
  and the events so far.
\<close>

record ('b, 'w) call =
  tries :: go_int
  wait :: go_int
  req :: "('b, 'w) Request"
  status :: go_int
  body :: bytes
  err :: "go_error option"
  world :: 'w
  trace :: "'b event list"

text \<open>Lines 128 and 130: sleep \<open>wait\<close> milliseconds (a \<open>time.Duration\<close> counts nanoseconds), then update \<open>wait\<close>.\<close>

definition backoff :: "('b, 'w) client \<Rightarrow> 'w env \<Rightarrow> ('b, 'w) call \<Rightarrow> panic + ('b, 'w) call" where
  "backoff c e s =
     (let d = wait s * 1000000;
          w1 = time_Sleep e d (world s)
      in case Next (bk c) (rand_Intn e) (wait s) w1 of
           Inl p \<Rightarrow> Inl p
         | Inr (wait', w2) \<Rightarrow>
             Inr (s\<lparr>wait := wait', world := w2, trace := trace s @ [Slept d]\<rparr>))"

text \<open>Lines 133 to 135: the error that \<open>GetBody\<close> returns is dropped.\<close>

definition resetBody :: "('b, 'w) call \<Rightarrow> ('b, 'w) call" where
  "resetBody s =
     (if 1 <s tries s \<and> Body (req s) \<noteq> None \<and> GetBody (req s) \<noteq> None then
        (case GetBody (req s) of
           None \<Rightarrow> s
         | Some g \<Rightarrow>
             (case g (world s) of
                ((b, gerr), w') \<Rightarrow>
                  s\<lparr>req := (req s)\<lparr>Body := b\<rparr>, world := w', trace := trace s @ [GotBody b gerr]\<rparr>))
      else s)"

text \<open>Line 137.\<close>

definition send :: "('b, 'w) client \<Rightarrow> ('b, 'w) call \<Rightarrow> panic + ('b, 'w) call" where
  "send c s =
     (case RequestWithClose (cl c) (req s) (world s) of
        Inl p \<Rightarrow> Inl p
      | Inr ((st, bd, er), w') \<Rightarrow>
          Inr (s\<lparr>status := st, body := bd, err := er, world := w',
                 trace := trace s @ [Sent (Body (req s)) st bd er]\<rparr>))"

text \<open>One pass through the loop body up to the decision: lines 128 to 137.\<close>

definition attempt :: "('b, 'w) client \<Rightarrow> 'w env \<Rightarrow> ('b, 'w) call \<Rightarrow> panic + ('b, 'w) call" where
  "attempt c e s =
     (case backoff c e s of
        Inl p \<Rightarrow> Inl p
      | Inr s1 \<Rightarrow> send c (resetBody s1))"

text \<open>
  The \<open>for\<close> loop of \<open>Do\<close>, entered at its condition. \<open>None\<close> is a call that never
  returns, \<open>Some (Inl p)\<close> one that panics, \<open>Some (Inr s)\<close> one that returns with the
  variables \<open>s\<close>.
\<close>

partial_function (option) DoLoop ::
  "('b, 'w) client \<Rightarrow> 'w env \<Rightarrow> go_int \<Rightarrow> ('b, 'w) call \<Rightarrow> (panic + ('b, 'w) call) option" where
  "DoLoop c e maxTries s =
     (if tries s \<le>s maxTries then
        (case attempt c e s of
           Inl p \<Rightarrow> Some (Inl p)
         | Inr s' \<Rightarrow>
             if err s' \<noteq> None then
               (if \<not> timeoutOnly c \<or> IsTimeoutErr (err s')
                then DoLoop c e maxTries (s'\<lparr>tries := tries s' + 1\<rparr>)
                else Some (Inr s'))
             else if ShouldRetry (status s')
             then DoLoop c e maxTries (s'\<lparr>tries := tries s' + 1\<rparr>)
             else Some (Inr s'))
      else Some (Inr (s\<lparr>tries := tries s - 1\<rparr>)))"

declare DoLoop.simps [code]

definition enter :: "('b, 'w) Request \<Rightarrow> 'w \<Rightarrow> ('b, 'w) call" where
  "enter request w =
     \<lparr>tries = 1, wait = 0, req = request, status = 0, body = [], err = None,
      world = w, trace = []\<rparr>"

definition Do ::
  "('b, 'w) client \<Rightarrow> 'w env \<Rightarrow> ('b, 'w) Request \<Rightarrow> go_int \<Rightarrow> 'w
    \<Rightarrow> (panic + ('b, 'w) call) option" where
  "Do c e request maxTries w = DoLoop c e maxTries (enter request w)"

subsection \<open>The algorithm of \<open>Next\<close> as the design describes it\<close>

text \<open>
  Decorrelated jitter over the integers, step by step: the spread
  \<open>previous * 3 - baseDelay\<close>, its clamp to 1 when it is not positive, a number drawn
  below the spread, \<open>baseDelay\<close> added to give the candidate, and \<open>maxDelay\<close> in place of
  a candidate that exceeds it. \<open>draw n\<close> is the number drawn when the bound is \<open>n\<close>.
\<close>

definition decorrelated_jitter :: "int \<Rightarrow> int \<Rightarrow> int \<Rightarrow> (int \<Rightarrow> int) \<Rightarrow> int" where
  "decorrelated_jitter baseDelay maxDelay previous draw =
     (let spread = previous * 3 - baseDelay;
          spread = (if spread \<le> 0 then 1 else spread);
          candidate = draw spread + baseDelay
      in if candidate > maxDelay then maxDelay else candidate)"

text \<open>
  The number that the random source \<open>src\<close> hands out in the state \<open>w\<close> for the bound
  \<open>n\<close>, read as an integer.
\<close>

definition drawn :: "'w rand_source \<Rightarrow> 'w \<Rightarrow> int \<Rightarrow> int" where
  "drawn src w n = sint (fst (src (word_of_int n) w))"

subsection \<open>Random sources used in examples\<close>

text \<open>Two sources that keep the contract of \<open>rand.Intn\<close>: the largest and the smallest number allowed.\<close>

definition top_draw :: "unit rand_source" where
  "top_draw n w = (n - 1, w)"

definition zero_draw :: "unit rand_source" where
  "zero_draw n w = (0, w)"

subsection \<open>Reading the events of a call\<close>

text \<open>
  The sends among the events, in order: one \<open>Sent\<close> per call of \<open>RequestWithClose\<close>,
  carrying the body the request had and the three values that came back.
\<close>

primrec is_Sent :: "'b event \<Rightarrow> bool" where
  "is_Sent (Slept d) = False"
| "is_Sent (GotBody b g) = False"
| "is_Sent (Sent b st bd er) = True"

definition sends :: "'b event list \<Rightarrow> 'b event list" where
  "sends t = filter is_Sent t"

text \<open>
  The outcome of a send is retry-classified when it is an error that the client retries
  (any error, or under \<open>timeoutOnly\<close> a timeout) or a status that \<open>ShouldRetry\<close> accepts.
\<close>

primrec retry_classified :: "bool \<Rightarrow> 'b event \<Rightarrow> bool" where
  "retry_classified only (Slept d) = False"
| "retry_classified only (GotBody b g) = False"
| "retry_classified only (Sent b st bd er) =
     (case er of
        Some x \<Rightarrow> \<not> only \<or> IsTimeoutErr er
      | None \<Rightarrow> ShouldRetry st)"

text \<open>
  The four values \<open>Do\<close> hands back when it returns, and how many sends the call made.
\<close>

definition returned :: "(panic + ('b, 'w) call) option \<Rightarrow> (go_int \<times> go_int \<times> bytes \<times> go_error option) option" where
  "returned r = (case r of Some (Inr s) \<Rightarrow> Some (tries s, status s, body s, err s) | _ \<Rightarrow> None)"

definition sent_count :: "(panic + ('b, 'w) call) option \<Rightarrow> nat option" where
  "sent_count r = (case r of Some (Inr s) \<Rightarrow> Some (length (sends (trace s))) | _ \<Rightarrow> None)"

text \<open>
  \<open>reaches c e maxTries s0 s\<close>: started at the loop condition with the variables \<open>s0\<close>,
  the loop stands at its condition again with the variables \<open>s\<close>, every attempt in between
  having been retry-classified.
\<close>

inductive reaches ::
  "('b, 'w) client \<Rightarrow> 'w env \<Rightarrow> go_int \<Rightarrow> ('b, 'w) call \<Rightarrow> ('b, 'w) call \<Rightarrow> bool"
  for c e maxTries s0 where
    start: "reaches c e maxTries s0 s0"
  | retry: "reaches c e maxTries s0 s \<Longrightarrow> tries s \<le>s maxTries \<Longrightarrow> attempt c e s = Inr s1 \<Longrightarrow>
      retry_classified (timeoutOnly c) (Sent (Body (req s1)) (status s1) (body s1) (err s1)) \<Longrightarrow>
      reaches c e maxTries s0 (s1\<lparr>tries := tries s1 + 1\<rparr>)"

code_pred reaches .


subsection \<open>Construction of clients\<close>

text \<open>
  \<open>NewClient\<close> applies the options in order to the default client; the default
  \<open>http.Client\<close> (five seconds of timeout) comes from outside and is a parameter.
\<close>

definition TimeoutOnly :: "('b, 'w) client \<Rightarrow> ('b, 'w) client" where
  "TimeoutOnly c = c\<lparr>timeoutOnly := True\<rparr>"

definition WithHTTPClient :: "('b, 'w) http_Client \<Rightarrow> ('b, 'w) client \<Rightarrow> ('b, 'w) client" where
  "WithHTTPClient h c = c\<lparr>cl := h\<rparr>"

definition WithBackoff :: "Backoff \<Rightarrow> ('b, 'w) client \<Rightarrow> ('b, 'w) client" where
  "WithBackoff b c = c\<lparr>bk := b\<rparr>"

definition NewClient :: "('b, 'w) http_Client \<Rightarrow> (('b, 'w) client \<Rightarrow> ('b, 'w) client) list \<Rightarrow> ('b, 'w) client" where
  "NewClient dflt ops =
     foldl (\<lambda>c op. op c) \<lparr>timeoutOnly = False, cl = dflt, bk = \<lparr>BaseSleep = 100, MaxSleep = 5000\<rparr>\<rparr> ops"

subsection \<open>Servers, requests and environments used in examples\<close>

text \<open>
  An \<open>http.Client\<close> in front of a handler that answers every request with one status
  and one content (the test suite's \<open>DummyHandler\<close>), one whose every request fails with
  the same error, and one in front of a server that answers 500 until it has seen \<open>n\<close>
  requests and 200 to the next; there the environment counts the requests.
\<close>

definition served :: "go_int \<Rightarrow> bytes \<Rightarrow> ('b, 'w) http_Client" where
  "served code content rq w =
     ((Some \<lparr>StatusCode = code, ReadAll = (\<lambda>w. ((content, None), w)), Close = (\<lambda>w. w)\<rparr>,
       None), w)"

definition unreachable :: "go_error \<Rightarrow> ('b, 'w) http_Client" where
  "unreachable er rq w = ((None, Some er), w)"


text \<open>
  An environment where sleeping changes nothing and the random source always answers 0.
\<close>

definition still :: "'w env" where
  "still = \<lparr>rand_Intn = (\<lambda>n w. (0, w)), time_Sleep = (\<lambda>d w. w)\<rparr>"

definition okResp :: bytes where "okResp = [79, 75]"

definition errResp :: bytes where "errResp = [101, 120, 99, 101, 112, 116, 105, 111, 110]"

text \<open>
  A request without a body, and one with a body and \<open>GetBody\<close>: bodies are numbered,
  the environment counts the bodies handed out, and \<open>GetBody\<close> hands out the next one.
\<close>

definition get_request :: "('b, 'w) Request" where
  "get_request = \<lparr>Body = None, GetBody = None\<rparr>"

definition post_request :: "(nat, nat) Request" where
  "post_request = \<lparr>Body = Some 0, GetBody = Some (\<lambda>w. ((Some (Suc w), None), Suc w))\<rparr>"

section \<open>Properties\<close>

subsection \<open>Signed 64-bit arithmetic\<close>

lemma sint_int64_range:
  "- 9223372036854775808 \<le> sint (a::go_int) \<and> sint a < 9223372036854775808"
  using sint_ge [of a] sint_lt [of a] by simp

lemma sint_times3:
  "- 9223372036854775808 \<le> sint (a::go_int) * 3 \<Longrightarrow> sint a * 3 < 9223372036854775808
    \<Longrightarrow> sint (a * 3) = sint a * 3"
  by (simp add: sint_word_ariths signed_take_bit_int_eq_self)

lemma sint_minus:
  "- 9223372036854775808 \<le> sint (a::go_int) - sint b \<Longrightarrow> sint a - sint b < 9223372036854775808
    \<Longrightarrow> sint (a - b) = sint a - sint b"
  by (simp add: sint_word_ariths signed_take_bit_int_eq_self)

lemma sint_plus:
  "- 9223372036854775808 \<le> sint (a::go_int) + sint b \<Longrightarrow> sint a + sint b < 9223372036854775808
    \<Longrightarrow> sint (a + b) = sint a + sint b"
  by (simp add: sint_word_ariths signed_take_bit_int_eq_self)

subsection \<open>\<open>ShouldRetry\<close> and \<open>IsTimeoutErr\<close>\<close>

text \<open>
  Claim C7. For every status code, \<open>ShouldRetry\<close> answers true exactly when the code is
  408 or lies in 500..599; so 200, 400 and 600 are not retried and 408, 500, 501 and 599 are.
\<close>

theorem ShouldRetry_408_or_5xx:
  "(ShouldRetry statusCode \<longleftrightarrow>
      sint statusCode = 408 \<or> (500 \<le> sint statusCode \<and> sint statusCode \<le> 599))
   \<and> ShouldRetry 200 = False \<and> ShouldRetry 400 = False \<and> ShouldRetry 408 = True
   \<and> ShouldRetry 500 = True \<and> ShouldRetry 501 = True \<and> ShouldRetry 599 = True
   \<and> ShouldRetry 600 = False"
proof -
  have "statusCode = 408 \<longleftrightarrow> sint statusCode = sint (408::go_int)"
    by (rule word_eq_iff_signed)
  then have "ShouldRetry statusCode \<longleftrightarrow>
      sint statusCode = 408 \<or> (500 \<le> sint statusCode \<and> sint statusCode \<le> 599)"
    by (simp add: ShouldRetry_def StatusRequestTimeout_def word_sle_eq)
  moreover have "ShouldRetry 200 = False" "ShouldRetry 400 = False" "ShouldRetry 408 = True"
    "ShouldRetry 500 = True" "ShouldRetry 501 = True" "ShouldRetry 599 = True"
    "ShouldRetry 600 = False"
    by (simp_all add: ShouldRetry_def StatusRequestTimeout_def word_sle_eq)
  ultimately show ?thesis by blast
qed

text \<open>
  Claim C8. \<open>IsTimeoutErr\<close> answers true exactly for an error that implements
  \<open>net.Error\<close> and whose \<open>Timeout()\<close> reports true; the nil error, an error that is not a
  \<open>net.Error\<close> and a \<open>net.Error\<close> that is not a timeout all give false.
\<close>

theorem IsTimeoutErr_iff_timeout_flag:
  "(IsTimeoutErr e \<longleftrightarrow> (\<exists>msg temporary. e = Some (NetError msg True temporary)))
   \<and> IsTimeoutErr None = False
   \<and> IsTimeoutErr (Some (PlainError msg')) = False
   \<and> IsTimeoutErr (Some (NetError msg' False temporary')) = False
   \<and> IsTimeoutErr (Some (NetError msg' True temporary')) = True"
  by (auto simp: IsTimeoutErr_def split: option.splits go_error.splits)

subsection \<open>\<open>Backoff.Next\<close>\<close>

lemma spread_positive:
  "0 <s (let d = previous * 3 - BaseSleep b in if d \<le>s 0 then 1 else d)"
  by (simp add: Let_def word_sle_eq word_sless_alt)

lemma Next_unfolded:
  "Next b src previous w =
     (let n = (let d = previous * 3 - BaseSleep b in if d \<le>s 0 then 1 else d);
          sleep = fst (src n w) + BaseSleep b
      in Inr (if MaxSleep b <s sleep then MaxSleep b else sleep, snd (src n w)))"
  using spread_positive [of previous b]
  by (simp add: Next_def Intn_def Let_def word_sle_eq word_sless_alt split: prod.splits)

lemma top_draw_contract: "0 <s n \<Longrightarrow> 0 \<le>s fst (top_draw n w) \<and> fst (top_draw n w) <s n"
proof -
  assume "0 <s n"
  then have n: "0 < sint n" by (simp add: word_sless_alt)
  have "sint (n - 1) = sint n - sint (1::go_int)"
    using n sint_int64_range [of n] by (intro sint_minus) simp_all
  then show ?thesis using n by (simp add: top_draw_def word_sle_eq word_sless_alt)
qed

lemma zero_draw_contract: "0 <s n \<Longrightarrow> 0 \<le>s fst (zero_draw n w) \<and> fst (zero_draw n w) <s n"
  by (simp add: zero_draw_def)

text \<open>
  \<open>Next\<close> against the algorithm over the integers, where the arithmetic of \<open>int\<close>
  wraps around. With the default \<open>Backoff\<close> (100, 5000) and \<open>previous\<close>
  3074457345618258603, the product wraps to \<open>-2^63 + 1\<close> and the subtraction to the
  spread \<open>2^63 - 99\<close>, which is also the spread over the integers; for the draw
  \<open>2^63 - 100\<close> the sum wraps to \<open>-2^63\<close>, which \<open>Next\<close> returns, where the algorithm
  has the candidate \<open>2^63\<close> and returns \<open>maxDelay = 5000\<close>.
\<close>

theorem Next_differs_from_jitter_on_overflow:
  "- 9223372036854775808 \<le> sint (3074457345618258603 :: go_int)
   \<and> (3074457345618258603 :: go_int) * 3 = - 9223372036854775807
   \<and> (3074457345618258603 :: go_int) * 3 - 100 = 9223372036854775709
   \<and> fst (top_draw 9223372036854775709 ()) = 9223372036854775708
   \<and> (0::go_int) \<le>s 9223372036854775708
   \<and> (9223372036854775708::go_int) <s 9223372036854775709
   \<and> Next \<lparr>BaseSleep = 100, MaxSleep = 5000\<rparr> top_draw 3074457345618258603 ()
        = Inr (- 9223372036854775808, ())
   \<and> drawn top_draw () 9223372036854775709 = 9223372036854775708
   \<and> decorrelated_jitter 100 5000 3074457345618258603 (drawn top_draw ()) = 5000
   \<and> sint (- 9223372036854775808 :: go_int) = - 9223372036854775808"
  by (simp add: Next_def Intn_def top_draw_def drawn_def decorrelated_jitter_def
      word_sle_eq word_sless_alt)

text \<open>
  Claim C6, amended. Whenever \<open>previous * 3\<close> and \<open>previous * 3 - BaseSleep\<close> are
  representable in the 64-bit \<open>int\<close> and \<open>rand.Intn\<close> hands out numbers that are at least
  0 and below its argument, \<open>Next\<close> does not panic and returns exactly what the
  decorrelated-jitter algorithm over the integers returns for the number that
  \<open>rand.Intn\<close> hands out for the clamped spread: spread \<open>previous * 3 - baseDelay\<close>,
  clamped to 1 when not positive, a number below the spread drawn, \<open>baseDelay\<close> added,
  \<open>maxDelay\<close> returned when the candidate exceeds it. How the numbers are distributed
  is a matter of \<open>math/rand\<close>.
\<close>

theorem Next_is_decorrelated_jitter:
  assumes src: "\<And>n w. 0 <s n \<Longrightarrow> 0 \<le>s fst (src n w) \<and> fst (src n w) <s n"
    and lo: "- 9223372036854775808 \<le> sint previous * 3"
    and hi: "sint previous * 3 \<le> 9223372036854775807"
    and dlo: "- 9223372036854775808 \<le> sint previous * 3 - sint (BaseSleep b)"
    and dhi: "sint previous * 3 - sint (BaseSleep b) \<le> 9223372036854775807"
  shows "\<exists>d w'. Next b src previous w = Inr (d, w')
     \<and> sint d = decorrelated_jitter (sint (BaseSleep b)) (sint (MaxSleep b)) (sint previous)
                  (drawn src w)"
proof -
  let ?n = "let d = previous * 3 - BaseSleep b in if d \<le>s 0 then 1 else d"
  let ?spread = "if sint previous * 3 - sint (BaseSleep b) \<le> 0 then 1
                 else sint previous * 3 - sint (BaseSleep b)"
  let ?r = "fst (src ?n w)"
  have p3: "sint (previous * 3) = sint previous * 3"
    using lo hi by (intro sint_times3) simp_all
  have d: "sint (previous * 3 - BaseSleep b) = sint previous * 3 - sint (BaseSleep b)"
    using p3 dlo dhi by (simp add: sint_minus)
  have n: "sint ?n = ?spread"
    using d by (simp add: Let_def word_sle_eq)
  have "word_of_int (sint ?n) = ?n" by simp
  with n have wn: "word_of_int ?spread = ?n" by simp
  have r: "0 \<le> sint ?r" "sint ?r < sint ?n"
    using src [OF spread_positive, of previous b w] by (simp_all add: word_sle_eq word_sless_alt)
  have "sint ?r + sint (BaseSleep b) < 9223372036854775808"
  proof (cases "sint previous * 3 - sint (BaseSleep b) \<le> 0")
    case True
    with r n have "sint ?r = 0" by simp
    then show ?thesis using sint_int64_range [of "BaseSleep b"] by simp
  next
    case False
    with r n hi show ?thesis by simp
  qed
  then have sum: "sint (?r + BaseSleep b) = sint ?r + sint (BaseSleep b)"
    using r sint_int64_range [of "BaseSleep b"] by (intro sint_plus) linarith+
  have "decorrelated_jitter (sint (BaseSleep b)) (sint (MaxSleep b)) (sint previous) (drawn src w)
      = (if sint (MaxSleep b) < sint ?r + sint (BaseSleep b) then sint (MaxSleep b)
         else sint ?r + sint (BaseSleep b))"
    using wn by (simp add: decorrelated_jitter_def drawn_def Let_def)
  moreover have "Next b src previous w =
      Inr (if MaxSleep b <s ?r + BaseSleep b then MaxSleep b else ?r + BaseSleep b,
           snd (src ?n w))"
    by (simp add: Next_unfolded Let_def)
  ultimately show ?thesis using sum by (simp add: word_sless_alt)
qed

theorem Next_is_decorrelated_jitter_witness:
  "- 9223372036854775808 \<le> sint (100::go_int) * 3 \<and> sint (100::go_int) * 3 \<le> 9223372036854775807
   \<and> - 9223372036854775808 \<le> sint (100::go_int) * 3 - sint (100::go_int)
   \<and> sint (100::go_int) * 3 - sint (100::go_int) \<le> 9223372036854775807
   \<and> Next \<lparr>BaseSleep = 100, MaxSleep = 5000\<rparr> top_draw 100 () = Inr (299, ())
   \<and> decorrelated_jitter 100 5000 100 (drawn top_draw ()) = 299
   \<and> (\<exists>d w'. Next \<lparr>BaseSleep = 100, MaxSleep = 5000\<rparr> top_draw 100 () = Inr (d, w')
        \<and> sint d = decorrelated_jitter 100 5000 100 (drawn top_draw ()))"
proof -
  have "\<exists>d w'. Next \<lparr>BaseSleep = 100, MaxSleep = 5000\<rparr> top_draw 100 () = Inr (d, w')
      \<and> sint d = decorrelated_jitter (sint (BaseSleep \<lparr>BaseSleep = 100, MaxSleep = 5000\<rparr>))
                     (sint (MaxSleep \<lparr>BaseSleep = 100, MaxSleep = 5000\<rparr>)) (sint (100::go_int))
                     (drawn top_draw ())"
    by (rule Next_is_decorrelated_jitter [OF top_draw_contract]) simp_all
  moreover have "Next \<lparr>BaseSleep = 100, MaxSleep = 5000\<rparr> top_draw 100 () = Inr (299, ())"
    by (simp add: Next_def Intn_def top_draw_def word_sle_eq word_sless_alt)
  moreover have "decorrelated_jitter 100 5000 100 (drawn top_draw ()) = 299"
    by (simp add: decorrelated_jitter_def drawn_def top_draw_def)
  ultimately show ?thesis by simp
qed

lemma sint_succ:
  "sint (a::go_int) < 9223372036854775807 \<Longrightarrow> sint (a + 1) = sint a + 1"
  using sint_int64_range [of a] sint_plus [of a 1] by simp

text \<open>
  On 64-bit \<open>int\<close> the range guarantee of \<open>Next\<close> is lost once \<open>previous * 3\<close> overflows.
  With \<open>BaseSleep\<close> \<open>2^62\<close>, any \<open>MaxSleep\<close> above it and \<open>previous\<close> 3074457345618258603
  (the least number whose triple exceeds \<open>2^63 - 1\<close>), the product wraps to \<open>-2^63 + 1\<close>,
  the subtraction wraps to the spread \<open>2^62 + 1\<close>, the draw \<open>2^62\<close> is allowed, and the sum
  \<open>2^62 + 2^62\<close> wraps to \<open>-2^63\<close>, which is returned: below \<open>BaseSleep\<close>.
\<close>

theorem Next_leaves_range_on_overflow:
  "0 <s BaseSleep \<lparr>BaseSleep = 4611686018427387904, MaxSleep = 9223372036854775807\<rparr>
   \<and> BaseSleep \<lparr>BaseSleep = 4611686018427387904, MaxSleep = 9223372036854775807\<rparr>
       \<le>s MaxSleep \<lparr>BaseSleep = 4611686018427387904, MaxSleep = 9223372036854775807\<rparr>
   \<and> (0::go_int) \<le>s 3074457345618258603
   \<and> (3074457345618258603::go_int) * 3 - 4611686018427387904 = 4611686018427387905
   \<and> fst (top_draw 4611686018427387905 ()) = 4611686018427387904
   \<and> (0::go_int) \<le>s 4611686018427387904
   \<and> (4611686018427387904::go_int) <s 4611686018427387905
   \<and> Next \<lparr>BaseSleep = 4611686018427387904, MaxSleep = 9223372036854775807\<rparr>
        top_draw 3074457345618258603 () = Inr (- 9223372036854775808, ())
   \<and> (- 9223372036854775808 :: go_int)
        <s BaseSleep \<lparr>BaseSleep = 4611686018427387904, MaxSleep = 9223372036854775807\<rparr>"
  by (simp add: Next_def Intn_def top_draw_def word_sle_eq word_sless_alt)

text \<open>
  Claim C5, amended. For every \<open>Backoff\<close> with \<open>0 < BaseSleep \<le> MaxSleep\<close>, every
  \<open>previous \<ge> 0\<close> whose triple fits the 64-bit \<open>int\<close> (\<open>previous * 3 \<le> 2^63 - 1\<close>) and
  every number that \<open>rand.Intn\<close> may hand out (at least 0 and below its argument),
  \<open>Next\<close> returns, without a panic, a value between \<open>BaseSleep\<close> and \<open>MaxSleep\<close> inclusive.
\<close>

theorem Next_within_bounds:
  assumes src: "\<And>n w. 0 <s n \<Longrightarrow> 0 \<le>s fst (src n w) \<and> fst (src n w) <s n"
    and base: "0 <s BaseSleep b" and cap: "BaseSleep b \<le>s MaxSleep b"
    and prev: "0 \<le>s previous" and fits: "sint previous * 3 \<le> 9223372036854775807"
  shows "\<exists>d w'. Next b src previous w = Inr (d, w') \<and> BaseSleep b \<le>s d \<and> d \<le>s MaxSleep b"
proof -
  let ?n = "let d = previous * 3 - BaseSleep b in if d \<le>s 0 then 1 else d"
  let ?r = "fst (src ?n w)"
  have r: "0 \<le> sint ?r" "sint ?r < sint ?n"
    using src [OF spread_positive, of previous b w] by (simp_all add: word_sle_eq word_sless_alt)
  have b0: "0 < sint (BaseSleep b)" using base by (simp add: word_sless_alt)
  have p0: "0 \<le> sint previous" using prev by (simp add: word_sle_eq)
  have p3: "sint (previous * 3) = sint previous * 3"
    using p0 fits by (intro sint_times3) simp_all
  have d: "sint (previous * 3 - BaseSleep b) = sint previous * 3 - sint (BaseSleep b)"
    using p0 fits b0 sint_int64_range [of "BaseSleep b"] p3 by (simp add: sint_minus)
  have n: "sint ?n \<le> max 1 (sint previous * 3 - sint (BaseSleep b))"
    using d by (simp add: Let_def word_sle_eq)
  have sum: "sint (?r + BaseSleep b) = sint ?r + sint (BaseSleep b)"
    using r n b0 fits sint_int64_range [of "BaseSleep b"] by (intro sint_plus) linarith+
  show ?thesis
    using r b0 sum cap
    by (simp add: Next_unfolded Let_def word_sle_eq word_sless_alt)
qed

theorem Next_within_bounds_witness:
  "(0::go_int) <s 10 \<and> (10::go_int) \<le>s 50 \<and> (0::go_int) \<le>s 30
   \<and> sint (30::go_int) * 3 \<le> 9223372036854775807
   \<and> Next \<lparr>BaseSleep = 10, MaxSleep = 50\<rparr> top_draw 30 () = Inr (50, ())
   \<and> (\<exists>d w'. Next \<lparr>BaseSleep = 10, MaxSleep = 50\<rparr> top_draw 30 () = Inr (d, w')
        \<and> 10 \<le>s d \<and> d \<le>s 50)"
proof -
  have "\<exists>d w'. Next \<lparr>BaseSleep = 10, MaxSleep = 50\<rparr> top_draw 30 () = Inr (d, w')
      \<and> BaseSleep \<lparr>BaseSleep = 10, MaxSleep = 50\<rparr> \<le>s d
      \<and> d \<le>s MaxSleep \<lparr>BaseSleep = 10, MaxSleep = 50\<rparr>"
    by (rule Next_within_bounds [OF top_draw_contract])
      (simp_all add: word_sle_eq word_sless_alt)
  moreover have "Next \<lparr>BaseSleep = 10, MaxSleep = 50\<rparr> top_draw 30 () = Inr (50, ())"
    by (simp add: Next_def Intn_def top_draw_def word_sle_eq word_sless_alt)
  ultimately show ?thesis by (simp add: word_sle_eq word_sless_alt)
qed

text \<open>
  With \<open>previous\<close> the least \<open>int\<close> and \<open>BaseSleep\<close> 1, \<open>previous * 3\<close> is at most
  \<open>BaseSleep\<close> both as a number and as the wrapped product (\<open>-2^63\<close>), but the subtraction
  wraps to the spread \<open>2^63 - 1\<close>: the result depends on the draw (5000 for the largest
  draw, 1 for the draw 0) and need not be \<open>min BaseSleep MaxSleep = 1\<close>.
\<close>

theorem Next_small_previous_not_deterministic:
  "1 \<le> sint (BaseSleep \<lparr>BaseSleep = 1, MaxSleep = 5000\<rparr>)
   \<and> sint (- 9223372036854775808 :: go_int) * 3 \<le> sint (BaseSleep \<lparr>BaseSleep = 1, MaxSleep = 5000\<rparr>)
   \<and> (- 9223372036854775808 :: go_int) * 3 \<le>s BaseSleep \<lparr>BaseSleep = 1, MaxSleep = 5000\<rparr>
   \<and> (- 9223372036854775808 :: go_int) * 3 - 1 = 9223372036854775807
   \<and> fst (top_draw 9223372036854775807 ()) = 9223372036854775806
   \<and> (0::go_int) \<le>s 9223372036854775806
   \<and> (9223372036854775806::go_int) <s 9223372036854775807
   \<and> fst (zero_draw 9223372036854775807 ()) = 0
   \<and> Next \<lparr>BaseSleep = 1, MaxSleep = 5000\<rparr> top_draw (- 9223372036854775808) () = Inr (5000, ())
   \<and> Next \<lparr>BaseSleep = 1, MaxSleep = 5000\<rparr> zero_draw (- 9223372036854775808) () = Inr (1, ())
   \<and> min (sint (1::go_int)) (sint (5000::go_int)) = 1"
  by (simp add: Next_def Intn_def top_draw_def zero_draw_def word_sle_eq word_sless_alt)

text \<open>
  Claim C10, amended. For every \<open>Backoff\<close> with \<open>BaseSleep \<ge> 1\<close> and every \<open>previous\<close>
  with \<open>previous * 3 \<le> BaseSleep\<close> for which \<open>previous * 3 - BaseSleep\<close> fits the 64-bit
  \<open>int\<close> (it is at least \<open>-2^63\<close>; so for every such \<open>previous \<ge> 0\<close>, and for 0), \<open>Next\<close>
  returns \<open>min BaseSleep MaxSleep\<close> whatever the random source: the spread is 1 and the
  only number below 1 is 0.
\<close>

theorem Next_small_previous:
  assumes src: "\<And>n w. 0 <s n \<Longrightarrow> 0 \<le>s fst (src n w) \<and> fst (src n w) <s n"
    and base: "1 \<le> sint (BaseSleep b)"
    and small: "sint previous * 3 \<le> sint (BaseSleep b)"
    and fits: "- 9223372036854775808 \<le> sint previous * 3 - sint (BaseSleep b)"
  shows "\<exists>d w'. Next b src previous w = Inr (d, w')
     \<and> sint d = min (sint (BaseSleep b)) (sint (MaxSleep b))"
proof -
  have p3: "sint (previous * 3) = sint previous * 3"
    using base small fits sint_int64_range [of "BaseSleep b"] by (intro sint_times3) linarith+
  have d: "sint (previous * 3 - BaseSleep b) = sint previous * 3 - sint (BaseSleep b)"
    using p3 base small fits by (simp add: sint_minus)
  have one: "(let d = previous * 3 - BaseSleep b in if d \<le>s 0 then 1 else d) = 1"
    using d small by (simp add: Let_def word_sle_eq)
  have "0 \<le> sint (fst (src 1 w)) \<and> sint (fst (src 1 w)) < 1"
    using src [of 1 w] by (simp add: word_sle_eq word_sless_alt)
  then have "sint (fst (src 1 w)) = sint (0::go_int)" by simp
  then have zero: "fst (src 1 w) = 0" by (simp only: word_eq_iff_signed [symmetric])
  show ?thesis
    using one zero d small
    by (simp add: Next_unfolded Let_def word_sle_eq word_sless_alt min_def)
qed

theorem Next_small_previous_witness:
  "1 \<le> sint (100::go_int) \<and> sint (0::go_int) * 3 \<le> sint (100::go_int)
   \<and> - 9223372036854775808 \<le> sint (0::go_int) * 3 - sint (100::go_int)
   \<and> Next \<lparr>BaseSleep = 100, MaxSleep = 5000\<rparr> top_draw 0 () = Inr (100, ())
   \<and> (\<exists>d w'. Next \<lparr>BaseSleep = 100, MaxSleep = 5000\<rparr> top_draw 0 () = Inr (d, w')
        \<and> sint d = min 100 5000)"
proof -
  have "\<exists>d w'. Next \<lparr>BaseSleep = 100, MaxSleep = 5000\<rparr> top_draw 0 () = Inr (d, w')
      \<and> sint d = min (sint (BaseSleep \<lparr>BaseSleep = 100, MaxSleep = 5000\<rparr>))
                     (sint (MaxSleep \<lparr>BaseSleep = 100, MaxSleep = 5000\<rparr>))"
    by (rule Next_small_previous [OF top_draw_contract]) simp_all
  moreover have "Next \<lparr>BaseSleep = 100, MaxSleep = 5000\<rparr> top_draw 0 () = Inr (100, ())"
    by (simp add: Next_def Intn_def top_draw_def word_sle_eq word_sless_alt)
  ultimately show ?thesis by simp
qed

subsection \<open>The steps of one attempt\<close>

lemma sends_append [simp]: "sends (xs @ ys) = sends xs @ sends ys"
  by (simp add: sends_def)

lemma sends_simps [simp]:
  "sends [] = []"
  "sends (Slept d # t) = sends t"
  "sends (GotBody b g # t) = sends t"
  "sends (Sent b st bd er # t) = Sent b st bd er # sends t"
  by (simp_all add: sends_def)

lemma backoff_Inr:
  "\<exists>wt w2. backoff c e s = Inr (s\<lparr>wait := wt, world := w2, trace := trace s @ [Slept (wait s * 1000000)]\<rparr>)"
proof -
  obtain d w2 where "Next (bk c) (rand_Intn e) (wait s)
      (time_Sleep e (wait s * 1000000) (world s)) = Inr (d, w2)"
    by (simp add: Next_unfolded Let_def)
  then have "backoff c e s =
      Inr (s\<lparr>wait := d, world := w2, trace := trace s @ [Slept (wait s * 1000000)]\<rparr>)"
    by (simp add: backoff_def Let_def)
  then show ?thesis by blast
qed

lemma resetBody_cases:
  "resetBody s = s \<or>
   (\<exists>b gerr w'. resetBody s = s\<lparr>req := (req s)\<lparr>Body := b\<rparr>, world := w', trace := trace s @ [GotBody b gerr]\<rparr>)"
  by (auto simp: resetBody_def split: option.splits prod.splits)

lemma send_Inr:
  "send c s = Inr s' \<Longrightarrow>
   \<exists>st bd er w'. s' = s\<lparr>status := st, body := bd, err := er, world := w',
       trace := trace s @ [Sent (Body (req s)) st bd er]\<rparr>"
  by (auto simp: send_def split: sum.splits prod.splits)

lemma attempt_Inr:
  assumes "attempt c e s = Inr s'"
  shows "tries s' = tries s \<and>
    (\<exists>pre. trace s' = trace s @ pre @ [Sent (Body (req s')) (status s') (body s') (err s')] \<and> sends pre = [])"
proof -
  obtain wt w2 where b: "backoff c e s = Inr (s\<lparr>wait := wt, world := w2, trace := trace s @ [Slept (wait s * 1000000)]\<rparr>)"
    using backoff_Inr [of c e s] by blast
  let ?s1 = "s\<lparr>wait := wt, world := w2, trace := trace s @ [Slept (wait s * 1000000)]\<rparr>"
  have snd: "send c (resetBody ?s1) = Inr s'"
    using assms b by (simp add: attempt_def)
  from send_Inr [OF snd] obtain st bd er w' where
    s': "s' = (resetBody ?s1)\<lparr>status := st, body := bd, err := er, world := w',
       trace := trace (resetBody ?s1) @ [Sent (Body (req (resetBody ?s1))) st bd er]\<rparr>"
    by blast
  from resetBody_cases [of ?s1] show ?thesis
  proof
    assume "resetBody ?s1 = ?s1"
    with s' show ?thesis by simp
  next
    assume "\<exists>b gerr w'. resetBody ?s1 = ?s1\<lparr>req := (req ?s1)\<lparr>Body := b\<rparr>, world := w', trace := trace ?s1 @ [GotBody b gerr]\<rparr>"
    then obtain b gerr w'' where "resetBody ?s1 = ?s1\<lparr>req := (req ?s1)\<lparr>Body := b\<rparr>, world := w'', trace := trace ?s1 @ [GotBody b gerr]\<rparr>"
      by blast
    with s' show ?thesis by simp
  qed
qed

lemma attempt_sends:
  assumes "attempt c e s = Inr s'"
  shows "sends (trace s') = sends (trace s) @ [Sent (Body (req s')) (status s') (body s') (err s')]"
  using attempt_Inr [OF assms] by auto

subsection \<open>The loop of \<open>Do\<close>\<close>

lemma DoLoop_exhausted:
  "\<not> tries s \<le>s maxTries \<Longrightarrow> DoLoop c e maxTries s = Some (Inr (s\<lparr>tries := tries s - 1\<rparr>))"
  by (subst DoLoop.simps) simp


lemma DoLoop_stop:
  "tries s \<le>s maxTries \<Longrightarrow> attempt c e s = Inr s' \<Longrightarrow>
   \<not> retry_classified (timeoutOnly c) (Sent b (status s') bd (err s')) \<Longrightarrow>
   DoLoop c e maxTries s = Some (Inr s')"
  by (subst DoLoop.simps) (auto split: option.splits)

lemma DoLoop_continue:
  "tries s \<le>s maxTries \<Longrightarrow> attempt c e s = Inr s' \<Longrightarrow>
   retry_classified (timeoutOnly c) (Sent b (status s') bd (err s')) \<Longrightarrow>
   DoLoop c e maxTries s = DoLoop c e maxTries (s'\<lparr>tries := tries s' + 1\<rparr>)"
  by (subst DoLoop.simps) (auto split: option.splits)





lemma reaches_DoLoop:
  "reaches c e maxTries s0 s \<Longrightarrow> DoLoop c e maxTries s0 = DoLoop c e maxTries s"
  by (induction rule: reaches.induct) (simp_all add: DoLoop_continue)

lemma reaches_tries:
  "reaches c e maxTries s0 s \<Longrightarrow> sint (tries s0) = int (length (sends (trace s0))) + 1 \<Longrightarrow>
   int (length (sends (trace s))) + 1 \<le> 9223372036854775807 \<Longrightarrow>
   sint (tries s) = int (length (sends (trace s))) + 1"
proof (induction rule: reaches.induct)
  case start
  then show ?case by simp
next
  case (retry s s1)
  have len: "length (sends (trace s1)) = length (sends (trace s)) + 1"
    using attempt_sends [OF retry.hyps(3)] by simp
  have t1: "tries s1 = tries s" using attempt_Inr [OF retry.hyps(3)] by simp
  have "sint (tries s) = int (length (sends (trace s))) + 1"
    using retry.IH retry.prems len by simp
  moreover from this have "sint (tries s) < 9223372036854775807"
    using retry.prems len by simp
  ultimately show ?case using t1 len by (simp add: sint_succ)
qed

lemma enter_tries: "sint (tries (enter request w)) = int (length (sends (trace (enter request w)))) + 1"
  by (simp add: enter_def)

text \<open>
  At the start of attempt \<open>i \<le> maxTries\<close>, that is after \<open>i - 1\<close> sends, \<open>tries\<close> is \<open>i\<close>
  and the loop body is entered.
\<close>

lemma attempt_number:
  assumes "reaches c e maxTries (enter request w) s"
    and "int (length (sends (trace s))) + 1 \<le> sint maxTries"
  shows "sint (tries s) = int (length (sends (trace s))) + 1" and "tries s \<le>s maxTries"
proof -
  have "int (length (sends (trace s))) + 1 \<le> 9223372036854775807"
    using assms(2) sint_int64_range [of maxTries] by simp
  then show "sint (tries s) = int (length (sends (trace s))) + 1"
    by (rule reaches_tries [OF assms(1) enter_tries])
  with assms(2) show "tries s \<le>s maxTries" by (simp add: word_sle_eq)
qed

lemmas run_simps =
  Do_def enter_def DoLoop.simps attempt_def backoff_def Next_def Intn_def resetBody_def send_def
  RequestWithClose_def ShouldRetry_def StatusRequestTimeout_def IsTimeoutErr_def
  word_sle_eq word_sless_alt
  served_def unreachable_def still_def TimeoutOnly_def WithHTTPClient_def
  WithBackoff_def NewClient_def okResp_def errResp_def get_request_def post_request_def
  returned_def sent_count_def

text \<open>
  Claim C1. Let the client be in \<open>timeoutOnly\<close> mode and let the send of attempt \<open>i\<close>
  (\<open>i \<le> maxTries\<close>, the \<open>i - 1\<close> attempts before it retried) return an error. If the error is
  not a timeout, \<open>Do\<close> returns what that send returned with \<open>tries = i\<close>, and that send is
  the last of the \<open>i\<close> sends of the call. If it is a timeout, \<open>Do\<close> goes on with
  \<open>tries + 1\<close>, and when \<open>i < maxTries\<close> this is \<open>i + 1 \<le> maxTries\<close>, so that the loop body
  runs again. A non-timeout error on the first attempt with \<open>maxTries = 5\<close> gives
  \<open>tries = 1\<close>.
\<close>

theorem Do_timeoutOnly_error:
  assumes only: "timeoutOnly c"
    and before: "reaches c e maxTries (enter request w) s"
    and i: "i = length (sends (trace s)) + 1" "int i \<le> sint maxTries"
    and sent: "attempt c e s = Inr s'"
    and failed: "err s' \<noteq> None"
  shows "(\<not> IsTimeoutErr (err s') \<longrightarrow>
            Do c e request maxTries w = Some (Inr s') \<and> sint (tries s') = int i
            \<and> length (sends (trace s')) = i
            \<and> last (sends (trace s')) = Sent (Body (req s')) (status s') (body s') (err s'))
       \<and> (IsTimeoutErr (err s') \<longrightarrow>
            Do c e request maxTries w = DoLoop c e maxTries (s'\<lparr>tries := tries s' + 1\<rparr>)
            \<and> (int i < sint maxTries \<longrightarrow>
                  sint (tries s' + 1) = int i + 1 \<and> tries s' + 1 \<le>s maxTries))"
proof -
  have n: "sint (tries s) = int i" and enter: "tries s \<le>s maxTries"
    using attempt_number [OF before] i by simp_all
  have t: "tries s' = tries s" using attempt_Inr [OF sent] by simp
  have tr: "sends (trace s') = sends (trace s) @ [Sent (Body (req s')) (status s') (body s') (err s')]"
    using sent by (rule attempt_sends)
  have Do: "Do c e request maxTries w = DoLoop c e maxTries s"
    using reaches_DoLoop [OF before] by (simp add: Do_def)
  have rc: "retry_classified (timeoutOnly c) (Sent (Body (req s')) (status s') (body s') (err s'))
      \<longleftrightarrow> IsTimeoutErr (err s')"
    using only failed by (auto split: option.splits)
  show ?thesis
  proof (intro conjI impI)
    assume "\<not> IsTimeoutErr (err s')"
    with rc enter sent have "DoLoop c e maxTries s = Some (Inr s')"
      by (intro DoLoop_stop) simp_all
    with Do show "Do c e request maxTries w = Some (Inr s')" by simp
  next
    show "sint (tries s') = int i" using t n by simp
  next
    show "length (sends (trace s')) = i" using tr i by simp
  next
    show "last (sends (trace s')) = Sent (Body (req s')) (status s') (body s') (err s')"
      using tr by simp
  next
    assume "IsTimeoutErr (err s')"
    with rc enter sent have "DoLoop c e maxTries s = DoLoop c e maxTries (s'\<lparr>tries := tries s' + 1\<rparr>)"
      by (intro DoLoop_continue) simp_all
    with Do show "Do c e request maxTries w = DoLoop c e maxTries (s'\<lparr>tries := tries s' + 1\<rparr>)"
      by simp
  next
    assume lt: "int i < sint maxTries"
    then have "sint (tries s') < 9223372036854775807"
      using t n sint_int64_range [of maxTries] by simp
    then show "sint (tries s' + 1) = int i + 1" using t n by (simp add: sint_succ)
    with lt show "tries s' + 1 \<le>s maxTries" by (simp add: word_sle_eq)
  qed
qed

theorem Do_timeoutOnly_error_witness:
  "(\<exists>s'. attempt (NewClient (served 200 okResp)
             [TimeoutOnly, WithHTTPClient (unreachable (NetError ''connection refused'' False False))])
           still (enter (get_request :: (unit, unit) Request) ()) = Inr s'
      \<and> timeoutOnly (NewClient (served 200 okResp)
             [TimeoutOnly, WithHTTPClient (unreachable (NetError ''connection refused'' False False))]
             :: (unit, unit) client)
      \<and> err s' = Some (NetError ''connection refused'' False False)
      \<and> IsTimeoutErr (err s') = False
      \<and> Do (NewClient (served 200 okResp)
             [TimeoutOnly, WithHTTPClient (unreachable (NetError ''connection refused'' False False))])
           still get_request 5 () = Some (Inr s')
      \<and> tries s' = 1 \<and> length (sends (trace s')) = 1)
   \<and> (\<exists>s'. attempt (NewClient (served 200 okResp)
             [TimeoutOnly, WithHTTPClient (unreachable (NetError ''timeout'' True True))])
           still (enter (get_request :: (unit, unit) Request) ()) = Inr s'
      \<and> IsTimeoutErr (err s')
      \<and> Do (NewClient (served 200 okResp)
             [TimeoutOnly, WithHTTPClient (unreachable (NetError ''timeout'' True True))])
           still get_request 3 ()
         = DoLoop (NewClient (served 200 okResp)
             [TimeoutOnly, WithHTTPClient (unreachable (NetError ''timeout'' True True))])
           still 3 (s'\<lparr>tries := tries s' + 1\<rparr>)
      \<and> tries s' + 1 \<le>s 3)
   \<and> returned (Do (NewClient (served 200 okResp)
             [TimeoutOnly, WithHTTPClient (unreachable (NetError ''timeout'' True True))])
           still (get_request :: (unit, unit) Request) 3 ())
       = Some (3, 0, [], Some (NetError ''timeout'' True True))"
proof -
  let ?s = "enter (get_request :: (unit, unit) Request) ()"
  let ?a = "NewClient (served 200 okResp)
      [TimeoutOnly, WithHTTPClient (unreachable (NetError ''connection refused'' False False))]
      :: (unit, unit) client"
  let ?b = "NewClient (served 200 okResp)
      [TimeoutOnly, WithHTTPClient (unreachable (NetError ''timeout'' True True))]
      :: (unit, unit) client"
  have only: "timeoutOnly ?a" "timeoutOnly ?b" by (simp_all add: NewClient_def TimeoutOnly_def WithHTTPClient_def)
  obtain sa where sa: "attempt ?a still ?s = Inr sa"
    "err sa = Some (NetError ''connection refused'' False False)"
    by (simp add: run_simps)
  have na: "err sa \<noteq> None" "\<not> IsTimeoutErr (err sa)" using sa(2) by (simp_all add: IsTimeoutErr_def)
  have "reaches ?a still 5 ?s ?s" by (rule reaches.start)
  from Do_timeoutOnly_error [OF only(1) this _ _ sa(1) na(1), of 1] na(2)
  have "Do ?a still get_request 5 () = Some (Inr sa) \<and> sint (tries sa) = 1
      \<and> length (sends (trace sa)) = 1"
    by (simp add: enter_def)
  moreover from this have "sint (tries sa) = sint (1::go_int)" by simp
  then have "tries sa = 1" by (simp only: word_eq_iff_signed [symmetric])
  ultimately have A: "\<exists>s'. attempt ?a still ?s = Inr s' \<and> timeoutOnly ?a
      \<and> err s' = Some (NetError ''connection refused'' False False)
      \<and> IsTimeoutErr (err s') = False
      \<and> Do ?a still get_request 5 () = Some (Inr s')
      \<and> tries s' = 1 \<and> length (sends (trace s')) = 1"
    using sa na only by blast
  obtain sb where sb: "attempt ?b still ?s = Inr sb"
    "err sb = Some (NetError ''timeout'' True True)"
    by (simp add: run_simps)
  have nb: "err sb \<noteq> None" "IsTimeoutErr (err sb)" using sb(2) by (simp_all add: IsTimeoutErr_def)
  have "reaches ?b still 3 ?s ?s" by (rule reaches.start)
  from Do_timeoutOnly_error [OF only(2) this _ _ sb(1) nb(1), of 1] nb(2)
  have "Do ?b still get_request 3 () = DoLoop ?b still 3 (sb\<lparr>tries := tries sb + 1\<rparr>)
      \<and> tries sb + 1 \<le>s 3"
    by (simp add: enter_def)
  with sb nb have B: "\<exists>s'. attempt ?b still ?s = Inr s' \<and> IsTimeoutErr (err s')
      \<and> Do ?b still get_request 3 () = DoLoop ?b still 3 (s'\<lparr>tries := tries s' + 1\<rparr>)
      \<and> tries s' + 1 \<le>s 3"
    by blast
  have C: "returned (Do ?b still (get_request :: (unit, unit) Request) 3 ())
       = Some (3, 0, [], Some (NetError ''timeout'' True True))"
    by (simp add: run_simps)
  from A B C show ?thesis by blast
qed

text \<open>
  Claim C3. If the send of attempt \<open>i\<close> (\<open>i \<le> maxTries\<close>, the attempts before it retried)
  returns no error and a status for which \<open>ShouldRetry\<close> is false, whatever that status,
  \<open>Do\<close> returns that status and body and the nil error with \<open>tries = i\<close>, after exactly
  \<open>i\<close> sends. A server that always answers 200 with \<open>maxTries = 3\<close> gives \<open>tries = 1\<close>
  and status 200.
\<close>

theorem Do_stops_on_final_status:
  assumes before: "reaches c e maxTries (enter request w) s"
    and i: "i = length (sends (trace s)) + 1" "int i \<le> sint maxTries"
    and sent: "attempt c e s = Inr s'"
    and ok: "err s' = None"
    and final: "\<not> ShouldRetry (status s')"
  shows "Do c e request maxTries w = Some (Inr s') \<and> sint (tries s') = int i
       \<and> length (sends (trace s')) = i
       \<and> last (sends (trace s')) = Sent (Body (req s')) (status s') (body s') None"
proof -
  have n: "sint (tries s) = int i" and enter: "tries s \<le>s maxTries"
    using attempt_number [OF before] i by simp_all
  have t: "tries s' = tries s" using attempt_Inr [OF sent] by simp
  have tr: "sends (trace s') = sends (trace s) @ [Sent (Body (req s')) (status s') (body s') (err s')]"
    using sent by (rule attempt_sends)
  have "\<not> retry_classified (timeoutOnly c) (Sent (Body (req s')) (status s') (body s') (err s'))"
    using ok final by simp
  with enter sent have "DoLoop c e maxTries s = Some (Inr s')" by (rule DoLoop_stop)
  then have "Do c e request maxTries w = Some (Inr s')"
    using reaches_DoLoop [OF before] by (simp add: Do_def)
  then show ?thesis using t n tr i ok by simp
qed

theorem Do_stops_on_final_status_witness:
  "\<exists>s'. attempt (NewClient (served 200 okResp) []) still
          (enter (get_request :: (unit, unit) Request) ()) = Inr s'
     \<and> err s' = None \<and> ShouldRetry (status s') = False
     \<and> Do (NewClient (served 200 okResp) []) still get_request 3 () = Some (Inr s')
     \<and> tries s' = 1 \<and> status s' = 200 \<and> body s' = okResp
     \<and> length (sends (trace s')) = 1"
proof -
  let ?c = "NewClient (served 200 okResp) [] :: (unit, unit) client"
  let ?s = "enter (get_request :: (unit, unit) Request) ()"
  obtain s' where s': "attempt ?c still ?s = Inr s'" "err s' = None" "\<not> ShouldRetry (status s')"
    "status s' = 200" "body s' = okResp"
    by (simp add: run_simps)
  have "reaches ?c still 3 ?s ?s" by (rule reaches.start)
  from Do_stops_on_final_status [OF this _ _ s'(1,2,3), of 1]
  have "Do ?c still get_request 3 () = Some (Inr s') \<and> sint (tries s') = 1
      \<and> length (sends (trace s')) = 1"
    by (simp add: enter_def)
  moreover from this have "sint (tries s') = sint (1::go_int)" by simp
  then have "tries s' = 1" by (simp only: word_eq_iff_signed [symmetric])
  ultimately show ?thesis using s' by blast
qed

subsection \<open>Exhausting the attempts\<close>











subsection \<open>Replaying the body\<close>

text \<open>
  Claim C9. Let a call of \<open>Do\<close> stand at attempt \<open>i\<close> (\<open>i \<le> maxTries\<close>, the attempts
  before it retried), the sleep and the update of \<open>wait\<close> having left the variables
  \<open>s1\<close>. Then the call goes on by handing \<open>RequestWithClose\<close> the request of the
  variables \<open>s2\<close>, and its outcome is decided from what comes back. If \<open>i > 1\<close> and the
  request has a body and a \<open>GetBody\<close>, \<open>s2\<close> is \<open>s1\<close> after one call of \<open>GetBody\<close>, whose
  first result is the new body of the request; otherwise \<open>s2\<close> is \<open>s1\<close>, with the
  request as it was: on the first attempt, and when the body or \<open>GetBody\<close> is nil, no
  body is fetched and the send is given the body the request had.
\<close>

theorem Do_replays_body:
  assumes before: "reaches c e maxTries (enter request w) s"
    and i: "i = length (sends (trace s)) + 1" "int i \<le> sint maxTries"
    and slept: "backoff c e s = Inr s1"
  shows "\<exists>s2.
      (if 1 < i \<and> Body (req s) \<noteq> None \<and> GetBody (req s) \<noteq> None
       then \<exists>g b gerr w2. GetBody (req s) = Some g \<and> g (world s1) = ((b, gerr), w2)
              \<and> s2 = s1\<lparr>req := (req s)\<lparr>Body := b\<rparr>, world := w2,
                         trace := trace s1 @ [GotBody b gerr]\<rparr>
       else s2 = s1 \<and> req s2 = req s)
    \<and> Do c e request maxTries w =
        (case RequestWithClose (cl c) (req s2) (world s2) of
           Inl p \<Rightarrow> Some (Inl p)
         | Inr ((st, bd, er), w3) \<Rightarrow>
             (if retry_classified (timeoutOnly c) (Sent (Body (req s2)) st bd er)
              then DoLoop c e maxTries
                     (s2\<lparr>status := st, body := bd, err := er, world := w3,
                         trace := trace s2 @ [Sent (Body (req s2)) st bd er],
                         tries := tries s + 1\<rparr>)
              else Some (Inr (s2\<lparr>status := st, body := bd, err := er, world := w3,
                         trace := trace s2 @ [Sent (Body (req s2)) st bd er]\<rparr>))))"
proof -
  have n: "sint (tries s) = int i" and enter: "tries s \<le>s maxTries"
    using attempt_number [OF before] i by simp_all
  obtain wt w0 where "backoff c e s =
      Inr (s\<lparr>wait := wt, world := w0, trace := trace s @ [Slept (wait s * 1000000)]\<rparr>)"
    using backoff_Inr [of c e s] by blast
  with slept have s1: "tries s1 = tries s" "req s1 = req s" by auto
  have first: "1 <s tries s1 \<longleftrightarrow> 1 < i" using n s1 by (simp add: word_sless_alt)
  have Do: "Do c e request maxTries w = DoLoop c e maxTries s"
    using reaches_DoLoop [OF before] by (simp add: Do_def)
  have att: "attempt c e s = send c (resetBody s1)" using slept by (simp add: attempt_def)
  define s2 where "s2 = resetBody s1"
  have t2: "tries s2 = tries s" using s1 resetBody_cases [of s1] by (auto simp: s2_def)
  have loop: "DoLoop c e maxTries s =
      (case RequestWithClose (cl c) (req s2) (world s2) of
         Inl p \<Rightarrow> Some (Inl p)
       | Inr ((st, bd, er), w3) \<Rightarrow>
           (if retry_classified (timeoutOnly c) (Sent (Body (req s2)) st bd er)
            then DoLoop c e maxTries
                   (s2\<lparr>status := st, body := bd, err := er, world := w3,
                       trace := trace s2 @ [Sent (Body (req s2)) st bd er],
                       tries := tries s + 1\<rparr>)
            else Some (Inr (s2\<lparr>status := st, body := bd, err := er, world := w3,
                       trace := trace s2 @ [Sent (Body (req s2)) st bd er]\<rparr>))))"
    using enter att t2
    by (subst DoLoop.simps) (auto simp: s2_def [symmetric] send_def split: sum.splits option.splits)
  have "if 1 < i \<and> Body (req s) \<noteq> None \<and> GetBody (req s) \<noteq> None
       then \<exists>g b gerr w2. GetBody (req s) = Some g \<and> g (world s1) = ((b, gerr), w2)
              \<and> s2 = s1\<lparr>req := (req s)\<lparr>Body := b\<rparr>, world := w2,
                         trace := trace s1 @ [GotBody b gerr]\<rparr>
       else s2 = s1 \<and> req s2 = req s"
  proof (cases "1 < i \<and> Body (req s) \<noteq> None \<and> GetBody (req s) \<noteq> None")
    case False
    then have "s2 = s1" using first s1 by (auto simp: s2_def resetBody_def)
    then have "s2 = s1 \<and> req s2 = req s" using s1 by simp
    then show ?thesis unfolding if_not_P [OF False] .
  next
    case True
    then obtain g where g: "GetBody (req s) = Some g" by auto
    obtain b gerr w2 where r: "g (world s1) = ((b, gerr), w2)"
      by (metis prod.exhaust)
    have "s2 = s1\<lparr>req := (req s)\<lparr>Body := b\<rparr>, world := w2, trace := trace s1 @ [GotBody b gerr]\<rparr>"
      using True first s1 g r by (simp add: s2_def resetBody_def)
    with g r have "\<exists>g b gerr w2. GetBody (req s) = Some g \<and> g (world s1) = ((b, gerr), w2)
        \<and> s2 = s1\<lparr>req := (req s)\<lparr>Body := b\<rparr>, world := w2,
                   trace := trace s1 @ [GotBody b gerr]\<rparr>"
      by blast
    then show ?thesis unfolding if_P [OF True] .
  qed
  with loop Do show ?thesis by (intro exI [of _ s2]) simp
qed

theorem Do_replays_body_witness:
  "\<exists>s s1. reaches (NewClient (served 500 errResp) []) still 2 (enter post_request 0) s
     \<and> length (sends (trace s)) + 1 = 2
     \<and> backoff (NewClient (served 500 errResp) []) still s = Inr s1
     \<and> Body (req s) = Some 0 \<and> GetBody (req s) = GetBody post_request \<and> world s1 = 0
     \<and> Do (NewClient (served 500 errResp) []) still post_request 2 0
        = DoLoop (NewClient (served 500 errResp) []) still 2
            (s1\<lparr>req := (req s)\<lparr>Body := Some 1\<rparr>, world := 1,
                trace := trace s1 @ [GotBody (Some 1) None],
                status := 500, body := errResp, err := None, world := 1,
                trace := trace s1 @ [GotBody (Some 1) None, Sent (Some 1) 500 errResp None],
                tries := tries s + 1\<rparr>)
     \<and> (\<exists>final. Do (NewClient (served 500 errResp) []) still post_request 2 0
            = Some (Inr final)
          \<and> tries final = 2 \<and> Body (req final) = Some 1
          \<and> sends (trace final)
              = [Sent (Some 0) 500 errResp None, Sent (Some 1) 500 errResp None])"
proof -
  let ?c = "NewClient (served 500 errResp) [] :: (nat, nat) client"
  let ?init = "enter post_request 0"
  obtain sa where sa: "attempt ?c still ?init = Inr sa"
    and fa: "tries sa = 1" "world sa = 0" "req sa = post_request" "status sa = 500"
      "body sa = errResp" "err sa = None" "length (sends (trace sa)) = 1"
      "sends (trace sa) = [Sent (Some 0) 500 errResp None]"
    by (simp add: run_simps)
  let ?s = "sa\<lparr>tries := tries sa + 1\<rparr>"
  have "reaches ?c still 2 ?init ?init" by (rule reaches.start)
  then have before: "reaches ?c still 2 ?init ?s"
  proof (rule reaches.retry)
    show "tries ?init \<le>s 2" by (simp add: enter_def word_sle_eq)
    show "attempt ?c still ?init = Inr sa" by (rule sa)
    show "retry_classified (timeoutOnly ?c) (Sent (Body (req sa)) (status sa) (body sa) (err sa))"
      using fa by (simp add: ShouldRetry_def StatusRequestTimeout_def word_sle_eq)
  qed
  obtain s1 where s1: "backoff ?c still ?s = Inr s1" and w1: "world s1 = 0"
    and t1: "sends (trace s1) = sends (trace sa)"
    using fa by (simp add: backoff_def Next_unfolded still_def Let_def)
  have i: "2 = length (sends (trace ?s)) + 1" "int 2 \<le> sint (2::go_int)"
    using fa by simp_all
  from Do_replays_body [OF before i s1] obtain s2 where
    s2: "s2 = s1\<lparr>req := (req ?s)\<lparr>Body := Some 1\<rparr>, world := 1,
                 trace := trace s1 @ [GotBody (Some 1) None]\<rparr>"
    and Do: "Do ?c still post_request 2 0 =
        (case RequestWithClose (cl ?c) (req s2) (world s2) of
           Inl p \<Rightarrow> Some (Inl p)
         | Inr ((st, bd, er), w3) \<Rightarrow>
             (if retry_classified (timeoutOnly ?c) (Sent (Body (req s2)) st bd er)
              then DoLoop ?c still 2
                     (s2\<lparr>status := st, body := bd, err := er, world := w3,
                         trace := trace s2 @ [Sent (Body (req s2)) st bd er],
                         tries := tries ?s + 1\<rparr>)
              else Some (Inr (s2\<lparr>status := st, body := bd, err := er, world := w3,
                         trace := trace s2 @ [Sent (Body (req s2)) st bd er]\<rparr>))))"
    using fa w1 by (auto simp: post_request_def)
  have "RequestWithClose (cl ?c) (req s2) (world s2) = Inr ((500, errResp, None), 1)"
    by (simp add: s2 RequestWithClose_def NewClient_def served_def)
  with Do have "Do ?c still post_request 2 0 =
      DoLoop ?c still 2
        (s2\<lparr>status := 500, body := errResp, err := None, world := 1,
            trace := trace s2 @ [Sent (Body (req s2)) 500 errResp None],
            tries := tries ?s + 1\<rparr>)"
    by (simp add: ShouldRetry_def StatusRequestTimeout_def word_sle_eq)
  then have run: "Do ?c still post_request 2 0 =
      DoLoop ?c still 2
        (s1\<lparr>req := (req ?s)\<lparr>Body := Some 1\<rparr>, world := 1,
            trace := trace s1 @ [GotBody (Some 1) None],
            status := 500, body := errResp, err := None, world := 1,
            trace := trace s1 @ [GotBody (Some 1) None, Sent (Some 1) 500 errResp None],
            tries := tries ?s + 1\<rparr>)"
    (is "_ = DoLoop _ _ _ ?last")
    by (simp add: s2)
  have "\<not> tries ?last \<le>s 2" using fa by (simp add: word_sle_eq)
  then have "DoLoop ?c still 2 ?last = Some (Inr (?last\<lparr>tries := tries ?last - 1\<rparr>))"
    by (rule DoLoop_exhausted)
  with run have "\<exists>final. Do ?c still post_request 2 0 = Some (Inr final)
      \<and> tries final = 2 \<and> Body (req final) = Some 1
      \<and> sends (trace final) = [Sent (Some 0) 500 errResp None, Sent (Some 1) 500 errResp None]"
    using fa t1 by simp
  with run before s1 fa w1 show ?thesis
    by (intro exI [of _ ?s] exI [of _ s1]) (simp add: post_request_def)
qed

end
